theory Spec2Isabelle
  imports Complex_Main "HOL-Library.AList"
begin

section \<open>metis-wizard: the namelist document\<close>

text \<open>
  The development follows \<^verbatim>\<open>src/metis_wizard/metis_wizard.py\<close> (version 2.1.0).

  A namelist is an ordered dictionary of groups, each group an ordered dictionary of
  fields (\<^verbatim>\<open>f90nml.Namelist\<close> derives from \<^verbatim>\<open>OrderedDict\<close>). Both levels are
  association lists: assigning to a key that exists keeps its position, assigning to a
  new key appends it, which is what \<^const>\<open>AList.update\<close> does. Keys are held in lower
  case, as the library stores them; every key the program uses is a lower-case literal.

  A namelist file may hold several groups of one name. The document is the list of its
  groups in the order of the file, so such a name stands at several entries of the
  list; the library then answers \<^verbatim>\<open>nml[name]\<close> with the list of these groups
  (a \<^verbatim>\<open>Cogroup\<close>) and not with one group. Within a group every field has one
  value.
\<close>

datatype val = VStr string | VInt int | VFloat real | VBool bool

type_synonym group = "(string \<times> val) list"

type_synonym namelist = "(string \<times> group) list"

datatype error =
    KeyError string
  | TypeError string
  | ValueError val
  | FileNotFoundError string
  | MetisPartitionerError string
  | CalledProcessError int string

definition and_then :: "error + 'a \<Rightarrow> ('a \<Rightarrow> error + 'b) \<Rightarrow> error + 'b" where
  "and_then r f = (case r of Inl e \<Rightarrow> Inl e | Inr x \<Rightarrow> f x)"

text \<open>The groups of one name, in the order of the document, and how many they are.\<close>

definition groups_named :: "namelist \<Rightarrow> string \<Rightarrow> group list" where
  "groups_named nml section = map snd (filter (\<lambda>p. fst p = section) nml)"

definition occurrences :: "namelist \<Rightarrow> string \<Rightarrow> nat" where
  "occurrences nml section = length (groups_named nml section)"

text \<open>
  The value of a field, for the statements below: the field \<open>key\<close> of the first group
  named \<open>section\<close>; \<open>None\<close> stands for a missing group or field. Where the name
  occurs once this is what \<^verbatim>\<open>nml[section][key]\<close> reads.
\<close>

definition get_field :: "namelist \<Rightarrow> string \<Rightarrow> string \<Rightarrow> val option" where
  "get_field nml section key =
     (case map_of nml section of None \<Rightarrow> None | Some g \<Rightarrow> map_of g key)"

text \<open>
  The statement \<^verbatim>\<open>nml[section][key] = value\<close>. Looking the group up raises
  \<^verbatim>\<open>KeyError\<close> when there is none of that name. When there is one, the assignment
  into the group creates the field when it is missing; the group object is changed in
  place, so it keeps its position in the namelist. When there are several, the lookup
  gives their list, and the assignment with a string as the index of a list raises
  \<^verbatim>\<open>TypeError\<close>.
\<close>

definition set_item :: "namelist \<Rightarrow> string \<Rightarrow> string \<Rightarrow> val \<Rightarrow> error + namelist" where
  "set_item nml section key v =
     (case groups_named nml section of
        [] \<Rightarrow> Inl (KeyError section)
      | [g] \<Rightarrow> Inr (AList.update section (AList.update key v g) nml)
      | g # g' # gs \<Rightarrow> Inl (TypeError section))"

text \<open>\<^verbatim>\<open>MetisNamelist.set_mesh\<close> (lines 42-51).\<close>

definition set_mesh :: "namelist \<Rightarrow> string \<Rightarrow> error + namelist" where
  "set_mesh self mesh_path = set_item self ''paths'' ''meshpath'' (VStr mesh_path)"

text \<open>
  \<^verbatim>\<open>MetisNamelist.set_partitioning\<close> (lines 53-63). The argument is stored as it
  comes: the method looks neither at its type nor at its sign.
\<close>

definition set_partitioning :: "namelist \<Rightarrow> val \<Rightarrow> error + namelist" where
  "set_partitioning self n_part =
     and_then (set_item self ''machine'' ''n_levels'' (VInt 1))
       (\<lambda>self. set_item self ''machine'' ''n_part'' n_part)"

section \<open>The world outside the program\<close>

text \<open>
  What the program reads and changes outside its own memory: the files it loads and
  writes (a namelist file is held as the document it parses to; the parser and the
  writer are the library's), the template bundled with the package (a package resource,
  taken as given), the executable search path as \<^verbatim>\<open>shutil.which\<close> answers it, and the
  partitioner binary: given the command line and the files, it leaves an exit code and
  the files as it changed them. The program's own traces are the list of commands it
  spawned and the messages it logged.
\<close>

datatype log_msg =
    RotatedDetected
  | RotatingBy val val val
  | CavityEnabled
  | InteractiveEnabled
  | HighlightedInfo
  | SelectedPartitions
  | LogVal val
  | Exiting
  | Beginning
  | MeshPath string
  | NumSchemes nat
  | PartitionScheme int
  | NamelistWritten string
  | PartitioningWith string
  | Partitioned string val

record world =
  files :: "string \<rightharpoonup> namelist"
  bundled :: namelist
  which :: "string \<Rightarrow> string option"
  child :: "string \<Rightarrow> (string \<rightharpoonup> namelist) \<Rightarrow> int \<times> (string \<rightharpoonup> namelist)"
  spawned :: "string list"
  logged :: "log_msg list"

definition info :: "log_msg \<Rightarrow> world \<Rightarrow> world" where
  "info m w = w\<lparr>logged := logged w @ [m]\<rparr>"

record FesomMesh =
  path :: string

text \<open>
  Lines 146-150 of \<^verbatim>\<open>prepare_namelist\<close>: the template is the file at
  \<^verbatim>\<open>namelist_path\<close> when one is given, the bundled one otherwise.
\<close>

definition read_template :: "world \<Rightarrow> string option \<Rightarrow> error + namelist" where
  "read_template w namelist_path =
     (case namelist_path of
        Some p \<Rightarrow> (case files w p of None \<Rightarrow> Inl (FileNotFoundError p) | Some nml \<Rightarrow> Inr nml)
      | None \<Rightarrow> Inr (bundled w))"

text \<open>
  \<^verbatim>\<open>prepare_namelist\<close> (lines 131-163). An angle is \<open>None\<close> when it is not given;
  each of the three has its own test.
\<close>

definition prepare_namelist ::
  "world \<Rightarrow> FesomMesh \<Rightarrow> val \<Rightarrow> val option \<Rightarrow> val option \<Rightarrow> val option \<Rightarrow> bool
     \<Rightarrow> string option \<Rightarrow> error + namelist" where
  "prepare_namelist w mesh n_part alpha beta gamma use_cavity namelist_path =
     and_then (read_template w namelist_path) (\<lambda>nml.
     and_then (set_mesh nml (path mesh)) (\<lambda>nml.
     and_then (set_partitioning nml n_part) (\<lambda>nml.
     and_then (case alpha of None \<Rightarrow> Inr nml
               | Some a \<Rightarrow> set_item nml ''geometry'' ''alphaeuler'' a) (\<lambda>nml.
     and_then (case beta of None \<Rightarrow> Inr nml
               | Some b \<Rightarrow> set_item nml ''geometry'' ''betaeuler'' b) (\<lambda>nml.
     and_then (case gamma of None \<Rightarrow> Inr nml
               | Some c \<Rightarrow> set_item nml ''geometry'' ''gammaeuler'' c) (\<lambda>nml.
     if use_cavity then
       and_then (set_item nml ''ale_def'' ''use_partial_cell'' (VBool True)) (\<lambda>nml.
       and_then (set_item nml ''run_config'' ''use_cavity'' (VBool True)) (\<lambda>nml.
       set_item nml ''run_config'' ''use_cavity_partial_cell'' (VBool True)))
     else Inr nml))))))"

section \<open>The partition runner\<close>

record MetisPartitioner =
  bin :: string

text \<open>
  \<^verbatim>\<open>MetisPartitioner.__init__\<close> (lines 89-101). \<^verbatim>\<open>bin or self._BIN\<close> takes the
  default name when the argument is \<^verbatim>\<open>None\<close> or the empty string. The assertion
  fails when \<^verbatim>\<open>shutil.which\<close> answers \<^verbatim>\<open>None\<close> (or an empty path), and the handler
  turns that into \<^verbatim>\<open>MetisPartitionerError\<close>. Assertions are taken to be enabled, as
  they are unless the interpreter runs with \<^verbatim>\<open>-O\<close>.
\<close>

definition BIN :: string where
  "BIN = ''fesom_ini''"

definition bin_or_default :: "string option \<Rightarrow> string" where
  "bin_or_default b = (case b of None \<Rightarrow> BIN | Some s \<Rightarrow> if s = [] then BIN else s)"

definition truthy_path :: "string option \<Rightarrow> bool" where
  "truthy_path r = (case r of None \<Rightarrow> False | Some p \<Rightarrow> p \<noteq> [])"

definition MetisPartitioner_init :: "world \<Rightarrow> string option \<Rightarrow> error + MetisPartitioner" where
  "MetisPartitioner_init w b =
     (let name = bin_or_default b
      in if truthy_path (which w name) then Inr \<lparr>bin = name\<rparr>
         else Inl (MetisPartitionerError name))"

text \<open>
  \<^verbatim>\<open>MetisPartitioner.partition_mesh\<close> (lines 103-122): build the namelist, write it
  to \<^verbatim>\<open>namelist.config\<close> (overwriting), run the binary and wait. With
  \<^verbatim>\<open>check=True\<close> a non-zero exit code raises \<^verbatim>\<open>subprocess.CalledProcessError\<close>,
  which carries the code and the command; nothing in the method catches it, and no
  statement follows the call on that path.
\<close>

definition partition_mesh ::
  "MetisPartitioner \<Rightarrow> world \<Rightarrow> FesomMesh \<Rightarrow> val \<Rightarrow> val option \<Rightarrow> val option \<Rightarrow> val option
     \<Rightarrow> bool \<Rightarrow> string option \<Rightarrow> (error + unit) \<times> world" where
  "partition_mesh self w mesh n_part alpha beta gamma use_cavity namelist_path =
     (case prepare_namelist w mesh n_part alpha beta gamma use_cavity namelist_path of
        Inl e \<Rightarrow> (Inl e, w)
      | Inr nml \<Rightarrow>
          (let w1 = w\<lparr>files := (files w)(''namelist.config'' \<mapsto> nml)\<rparr>;
               w2 = info (NamelistWritten (bin self)) w1;
               w3 = info (PartitioningWith (bin self)) w2;
               (rc, fs) = child w3 (bin self) (files w3);
               w4 = w3\<lparr>files := fs, spawned := spawned w3 @ [bin self]\<rparr>
           in if rc \<noteq> 0 then (Inl (CalledProcessError rc (bin self)), w4)
              else (Inr (), info (Partitioned (bin self) n_part) w4)))"

text \<open>
  The loop of \<^verbatim>\<open>main\<close> (lines 237-239). There is no handler around the call, so
  an exception of one pass leaves the loop.
\<close>

fun partition_all ::
  "MetisPartitioner \<Rightarrow> world \<Rightarrow> FesomMesh \<Rightarrow> int list \<Rightarrow> val option \<Rightarrow> val option \<Rightarrow> val option
     \<Rightarrow> bool \<Rightarrow> string option \<Rightarrow> (error + unit) \<times> world" where
  "partition_all p w mesh [] alpha beta gamma use_cavity namelist = (Inr (), w)"
| "partition_all p w mesh (n # ns) alpha beta gamma use_cavity namelist =
     (case partition_mesh p (info (PartitionScheme n) w) mesh (VInt n) alpha beta gamma
             use_cavity namelist of
        (Inl e, w') \<Rightarrow> (Inl e, w')
      | (Inr u, w') \<Rightarrow> partition_all p w' mesh ns alpha beta gamma use_cavity namelist)"

section \<open>Python's \<^verbatim>\<open>int\<close>\<close>

text \<open>
  \<^verbatim>\<open>int(x)\<close> as \<^verbatim>\<open>main\<close> applies it to each requested count. A string is
  stripped of white space, may carry one sign, and is then a run of decimal digits in
  which single underscores may separate digits; anything else raises
  \<^verbatim>\<open>ValueError\<close>.

  Strings are ASCII strings here, one \<^typ>\<open>char\<close> for each character. On such a
  string \<^verbatim>\<open>int\<close> strips the characters 9 to 13 and 32 and reads the digits
  \<^verbatim>\<open>0\<close> to \<^verbatim>\<open>9\<close>. A string with a character outside ASCII is outside the
  model (\<^verbatim>\<open>int\<close> also reads the decimal digits of other scripts), and so is the
  interpreter's limit on the number of digits of one string.
\<close>

definition is_space :: "char \<Rightarrow> bool" where
  "is_space c = ((of_char c :: nat) \<in> {9, 10, 11, 12, 13, 32})"

definition is_digit :: "char \<Rightarrow> bool" where
  "is_digit c = (48 \<le> (of_char c :: nat) \<and> (of_char c :: nat) \<le> 57)"

definition digit_val :: "char \<Rightarrow> int" where
  "digit_val c = int (of_char c) - 48"

definition strip :: "string \<Rightarrow> string" where
  "strip s = rev (dropWhile is_space (rev (dropWhile is_space s)))"

fun parse_digits :: "int \<Rightarrow> string \<Rightarrow> int option" where
  "parse_digits acc [] = Some acc"
| "parse_digits acc [c] = (if is_digit c then Some (acc * 10 + digit_val c) else None)"
| "parse_digits acc (c # d # cs) =
     (if is_digit c then parse_digits (acc * 10 + digit_val c) (d # cs)
      else if c = CHR ''_'' \<and> is_digit d then parse_digits (acc * 10 + digit_val d) cs
      else None)"

definition parse_unsigned :: "string \<Rightarrow> int option" where
  "parse_unsigned s =
     (case s of [] \<Rightarrow> None
      | c # cs \<Rightarrow> if is_digit c then parse_digits (digit_val c) cs else None)"

definition parse_int :: "string \<Rightarrow> int option" where
  "parse_int s =
     (case strip s of [] \<Rightarrow> None
      | c # cs \<Rightarrow>
          if c = CHR ''-'' then map_option uminus (parse_unsigned cs)
          else if c = CHR ''+'' then parse_unsigned cs
          else parse_unsigned (c # cs))"

definition py_int :: "val \<Rightarrow> error + int" where
  "py_int v =
     (case v of
        VInt n \<Rightarrow> Inr n
      | VBool b \<Rightarrow> Inr (if b then 1 else 0)
      | VFloat r \<Rightarrow> Inr (if 0 \<le> r then \<lfloor>r\<rfloor> else \<lceil>r\<rceil>)
      | VStr s \<Rightarrow> (case parse_int s of None \<Rightarrow> Inl (ValueError v) | Some n \<Rightarrow> Inr n))"

text \<open>Line 231, \<^verbatim>\<open>[int(n) for n in n_part]\<close>: the first element that fails raises.\<close>

fun convert_counts :: "val list \<Rightarrow> error + int list" where
  "convert_counts [] = Inr []"
| "convert_counts (v # vs) =
     and_then (py_int v) (\<lambda>n. and_then (convert_counts vs) (\<lambda>ns. Inr (n # ns)))"

section \<open>The command-line entry point\<close>

text \<open>
  The arguments as the command-line library hands them over: the counts are strings,
  \<^verbatim>\<open>--rotated\<close> is three floats or absent. What the user answers at the prompts of
  the interactive flow is an input too: the counts ticked in the checkbox, the texts
  entered for custom counts (the question whether to add one is answered yes once for
  each, then no), and the answer to the last confirmation.
\<close>

record cli_args =
  mesh_path :: string
  n_part :: "string list"
  interactive :: bool
  rotated :: "(real \<times> real \<times> real) option"
  use_cavity :: bool
  fesom_ini :: "string option"
  namelist :: "string option"

record answers =
  selected :: "int list"
  customs :: "string list"
  proceed :: bool

text \<open>
  Line 224, \<^verbatim>\<open>n_part += text\<close> with \<^verbatim>\<open>n_part\<close> a list and \<^verbatim>\<open>text\<close> a string:
  the list is extended by the elements of the string, its characters.
\<close>

definition iadd_str :: "val list \<Rightarrow> string \<Rightarrow> val list" where
  "iadd_str xs s = xs @ map (\<lambda>c. VStr [c]) s"

text \<open>The loop of lines 221-226, over the texts the user enters.\<close>

fun add_custom :: "val list \<Rightarrow> world \<Rightarrow> string list \<Rightarrow> val list \<times> world" where
  "add_custom xs w [] = (xs, w)"
| "add_custom xs w (t # ts) =
     (let xs' = iadd_str xs t;
          w' = fold (\<lambda>n. info (LogVal n)) xs' (info SelectedPartitions w)
      in add_custom xs' w' ts)"

text \<open>Lines 213-226: the checkbox, then the custom counts.\<close>

definition select_partitions :: "world \<Rightarrow> answers \<Rightarrow> val list \<times> world" where
  "select_partitions w ans =
     add_custom (map VInt (selected ans)) (info HighlightedInfo (info InteractiveEnabled w))
       (customs ans)"

text \<open>\<^verbatim>\<open>main\<close> (lines 191-239).\<close>

definition main :: "world \<Rightarrow> cli_args \<Rightarrow> answers \<Rightarrow> (error + unit) \<times> world" where
  "main w a ans =
     (let (w1, alpha, beta, gamma) =
            (case rotated a of
               Some (x, y, z) \<Rightarrow>
                 (info (RotatingBy (VFloat x) (VFloat y) (VFloat z)) (info RotatedDetected w),
                  Some (VFloat x), Some (VFloat y), Some (VFloat z))
             | None \<Rightarrow> (w, None, None, None));
          w2 = (if use_cavity a then info CavityEnabled w1 else w1);
          (counts, w3) =
            (if n_part a = [] \<and> interactive a then select_partitions w2 ans
             else (map VStr (n_part a), w2))
      in if interactive a \<and> \<not> proceed ans then (Inr (), info Exiting w3)
         else
           (case convert_counts (if counts = [] then [VInt 288] else counts) of
              Inl e \<Rightarrow> (Inl e, w3)
            | Inr ns \<Rightarrow>
                (let w4 = info (NumSchemes (length ns))
                            (info (MeshPath (mesh_path a)) (info Beginning w3))
                 in case MetisPartitioner_init w4 (fesom_ini a) of
                      Inl e \<Rightarrow> (Inl e, w4)
                    | Inr partitoner \<Rightarrow>
                        partition_all partitoner w4 \<lparr>path = mesh_path a\<rparr> ns alpha beta gamma
                          (use_cavity a) (namelist a))))"

section \<open>Auxiliary notions for the statements\<close>

text \<open>
  The fields \<^verbatim>\<open>prepare_namelist\<close> may assign, the groups it looks up for a given
  call, and the relation between two namelists that agree on everything else: the same
  group names in the same order, the groups of every other name identical, every other
  field equal.
\<close>

definition touched :: "(string \<times> string) set" where
  "touched =
     {(''paths'', ''meshpath''), (''machine'', ''n_levels''), (''machine'', ''n_part''),
      (''geometry'', ''alphaeuler''), (''geometry'', ''betaeuler''),
      (''geometry'', ''gammaeuler''), (''ale_def'', ''use_partial_cell''),
      (''run_config'', ''use_cavity''), (''run_config'', ''use_cavity_partial_cell'')}"

definition required_sections :: "val option \<Rightarrow> val option \<Rightarrow> val option \<Rightarrow> bool \<Rightarrow> string list" where
  "required_sections alpha beta gamma cav =
     [''paths'', ''machine''] @
     (if alpha \<noteq> None \<or> beta \<noteq> None \<or> gamma \<noteq> None then [''geometry''] else []) @
     (if cav then [''ale_def'', ''run_config''] else [])"

definition same_outside :: "(string \<times> string) set \<Rightarrow> namelist \<Rightarrow> namelist \<Rightarrow> bool" where
  "same_outside T a b =
     (map fst b = map fst a \<and>
      (\<forall>s. s \<notin> fst ` T \<longrightarrow> groups_named b s = groups_named a s) \<and>
      (\<forall>s. s \<notin> fst ` T \<longrightarrow> map_of b s = map_of a s) \<and>
      (\<forall>s k. (s, k) \<notin> T \<longrightarrow> get_field b s k = get_field a s k))"

text \<open>
  A sample installation for the concrete evaluations below: a bundled template with the
  five groups, nothing else on disk, \<^verbatim>\<open>fesom_ini\<close> on the search path, and a
  partitioner that reads \<^verbatim>\<open>namelist.config\<close>, exits with code 1 when asked for
  \<open>bad\<close> partitions and with code 0 otherwise, and leaves the files alone.
\<close>

definition example_template :: namelist where
  "example_template =
     [(''paths'', [(''meshpath'', VStr ''/old/mesh''), (''resultpath'', VStr ''/out'')]),
      (''machine'', [(''n_levels'', VInt 3), (''n_part'', VInt 2)]),
      (''geometry'', [(''alphaeuler'', VFloat 50), (''betaeuler'', VFloat 15),
                      (''gammaeuler'', VFloat (- 90))]),
      (''ale_def'', [(''use_partial_cell'', VBool False)]),
      (''run_config'', [(''use_cavity'', VBool False),
                        (''use_cavity_partial_cell'', VBool False)])]"

definition example_world :: "int \<Rightarrow> world" where
  "example_world bad =
     \<lparr>files = Map.empty, bundled = example_template,
      which = (\<lambda>name. if name = ''fesom_ini'' then Some ''/usr/bin/fesom_ini'' else None),
      child = (\<lambda>cmd fs.
        (case fs ''namelist.config'' of
           None \<Rightarrow> 2
         | Some nml \<Rightarrow> if get_field nml ''machine'' ''n_part'' = Some (VInt bad) then 1 else 0,
         fs)),
      spawned = [], logged = []\<rparr>"

definition example_args :: cli_args where
  "example_args =
     \<lparr>mesh_path = ''/data/mesh1'', n_part = [''2'', ''4'', ''8''], interactive = False,
      rotated = None, use_cavity = False, fesom_ini = None, namelist = None\<rparr>"

definition example_answers :: answers where
  "example_answers = \<lparr>selected = [72], customs = [''128''], proceed = True\<rparr>"

section \<open>Facts about assignments into a namelist\<close>

text \<open>
  What an assignment \<^verbatim>\<open>nml[section][key] = value\<close> does to the document: when it
  succeeds (the group occurs once), when it raises and with which error, what it leaves
  as it was.
\<close>

lemma and_then_Inr: "and_then r f = Inr y \<longleftrightarrow> (\<exists>x. r = Inr x \<and> f x = Inr y)"
  by (cases r) (simp_all add: and_then_def)

lemma and_then_Inl: "and_then r f = Inl e \<longleftrightarrow> (r = Inl e \<or> (\<exists>x. r = Inr x \<and> f x = Inl e))"
  by (cases r) (simp_all add: and_then_def)

lemma groups_named_single:
  "groups_named nml s = [g] \<Longrightarrow> map_of nml s = Some g"
proof (induction nml)
  case Nil
  then show ?case by (simp add: groups_named_def)
next
  case (Cons p nml)
  then show ?case by (cases p) (auto simp: groups_named_def split: if_splits)
qed

lemma occurrences_keys: "occurrences nml s = length (filter (\<lambda>x. x = s) (map fst nml))"
  by (simp add: occurrences_def groups_named_def filter_map comp_def)

lemma groups_named_update:
  "s' \<noteq> s \<Longrightarrow> groups_named (AList.update s g nml) s' = groups_named nml s'"
  by (induction nml) (auto simp: groups_named_def)

lemma groups_named_update_same:
  "groups_named nml s = [g] \<Longrightarrow> groups_named (AList.update s g' nml) s = [g']"
proof (induction nml)
  case Nil
  then show ?case by (simp add: groups_named_def)
next
  case (Cons p nml)
  then show ?case by (cases p) (auto simp: groups_named_def split: if_splits)
qed

lemma set_item_Inr:
  "set_item nml s k v = Inr nml' \<longleftrightarrow>
     (\<exists>g. groups_named nml s = [g] \<and> nml' = AList.update s (AList.update k v g) nml)"
  by (auto simp: set_item_def split: list.splits)

lemma set_item_InrD:
  assumes "set_item nml s k v = Inr nml'"
  obtains g where "map_of nml s = Some g" "nml' = AList.update s (AList.update k v g) nml"
  using assms by (auto simp: set_item_Inr dest: groups_named_single)

lemma set_item_Inl:
  "set_item nml s k v = Inl e \<longleftrightarrow>
     (occurrences nml s = 0 \<and> e = KeyError s \<or> 2 \<le> occurrences nml s \<and> e = TypeError s)"
  by (auto simp: set_item_def occurrences_def split: list.splits)

lemma set_item_get:
  assumes "set_item nml s k v = Inr nml'"
  shows "get_field nml' s' k' = (if s' = s \<and> k' = k then Some v else get_field nml s' k')"
  using assms by (auto elim!: set_item_InrD simp: get_field_def update_conv')

lemma set_item_keys:
  assumes "set_item nml s k v = Inr nml'"
  shows "map fst nml' = map fst nml"
proof -
  from assms obtain g where g: "map_of nml s = Some g"
    and n: "nml' = AList.update s (AList.update k v g) nml"
    by (rule set_item_InrD)
  from g have "s \<in> set (map fst nml)" by (metis map_of_eq_None_iff option.distinct(1) set_map)
  with n show ?thesis by (simp add: update_keys)
qed

lemma set_item_section:
  assumes "set_item nml s k v = Inr nml'" and "s' \<noteq> s"
  shows "map_of nml' s' = map_of nml s'"
  using assms by (auto elim!: set_item_InrD simp: update_conv')

lemma set_item_groups:
  assumes "set_item nml s k v = Inr nml'" and "s' \<noteq> s"
  shows "groups_named nml' s' = groups_named nml s'"
  using assms by (auto simp: set_item_Inr groups_named_update)

lemma set_item_present:
  assumes "set_item nml s k v = Inr nml'"
  shows "occurrences nml' s' = occurrences nml s'"
  by (simp add: occurrences_keys set_item_keys [OF assms])

lemma same_outside_refl: "same_outside T a a"
  by (simp add: same_outside_def)

lemma same_outside_trans:
  "same_outside T a b \<Longrightarrow> same_outside T b c \<Longrightarrow> same_outside T a c"
  by (simp add: same_outside_def)

lemma set_item_same_outside:
  assumes "set_item a s k v = Inr b" and "(s, k) \<in> T"
  shows "same_outside T a b"
  unfolding same_outside_def
proof (intro conjI allI impI)
  show "map fst b = map fst a" using assms(1) by (rule set_item_keys)
next
  fix s' assume "s' \<notin> fst ` T"
  with assms(2) have "s' \<noteq> s" by force
  with assms(1) show "groups_named b s' = groups_named a s'" by (rule set_item_groups)
next
  fix s' assume "s' \<notin> fst ` T"
  with assms(2) have "s' \<noteq> s" by force
  with assms(1) show "map_of b s' = map_of a s'" by (rule set_item_section)
next
  fix s' k' assume "(s', k') \<notin> T"
  with assms(2) have "\<not> (s' = s \<and> k' = k)" by auto
  with set_item_get [OF assms(1), of s' k'] show "get_field b s' k' = get_field a s' k'"
    by simp
qed

lemma same_outside_present:
  assumes "same_outside T a b"
  shows "occurrences b s = occurrences a s"
proof -
  from assms have "map fst b = map fst a" by (simp add: same_outside_def)
  then show ?thesis by (simp add: occurrences_keys)
qed

lemma set_item_ok:
  assumes "occurrences a s = 1"
  obtains b where "set_item a s k v = Inr b"
proof (cases "groups_named a s")
  case Nil
  with assms show ?thesis by (simp add: occurrences_def)
next
  case (Cons g gs)
  with assms have "gs = []" by (simp add: occurrences_def)
  with Cons show ?thesis using that by (simp add: set_item_def)
qed

section \<open>The effect of \<^verbatim>\<open>prepare_namelist\<close>\<close>

text \<open>
  Each block of \<^verbatim>\<open>prepare_namelist\<close> on its own, then the function as a whole:
  the value of every field of the result in terms of the template and the arguments, what
  stays outside the assigned fields, and when the function returns a document: whenever
  each group it looks up occurs once in the template, as in the sample template.
\<close>

lemma set_mesh_get:
  assumes "set_mesh a p = Inr b"
  shows "get_field b s k =
           (if s = ''paths'' \<and> k = ''meshpath'' then Some (VStr p) else get_field a s k)"
  using assms unfolding set_mesh_def by (simp add: set_item_get)

lemma set_partitioning_get:
  assumes "set_partitioning a n = Inr b"
  shows "get_field b s k =
           (if s = ''machine'' \<and> k = ''n_part'' then Some n
            else if s = ''machine'' \<and> k = ''n_levels'' then Some (VInt 1)
            else get_field a s k)"
proof -
  from assms obtain m where m: "set_item a ''machine'' ''n_levels'' (VInt 1) = Inr m"
    and b: "set_item m ''machine'' ''n_part'' n = Inr b"
    by (auto simp: set_partitioning_def and_then_Inr)
  show ?thesis by (simp add: set_item_get [OF b] set_item_get [OF m])
qed

lemma angle_get:
  assumes "(case x of None \<Rightarrow> Inr a | Some v \<Rightarrow> set_item a s0 k0 v) = Inr b"
  shows "get_field b s k = (if s = s0 \<and> k = k0 \<and> x \<noteq> None then x else get_field a s k)"
  using assms by (cases x) (auto simp: set_item_get)

lemma cavity_get:
  assumes "and_then (set_item a ''ale_def'' ''use_partial_cell'' (VBool True)) (\<lambda>nml.
           and_then (set_item nml ''run_config'' ''use_cavity'' (VBool True)) (\<lambda>nml.
           set_item nml ''run_config'' ''use_cavity_partial_cell'' (VBool True))) = Inr b"
  shows "get_field b s k =
           (if (s, k) \<in> {(''ale_def'', ''use_partial_cell''), (''run_config'', ''use_cavity''),
                          (''run_config'', ''use_cavity_partial_cell'')}
            then Some (VBool True) else get_field a s k)"
proof -
  from assms obtain m1 m2 where
    m1: "set_item a ''ale_def'' ''use_partial_cell'' (VBool True) = Inr m1" and
    m2: "set_item m1 ''run_config'' ''use_cavity'' (VBool True) = Inr m2" and
    b: "set_item m2 ''run_config'' ''use_cavity_partial_cell'' (VBool True) = Inr b"
    by (auto simp: and_then_Inr)
  show ?thesis
    by (simp add: set_item_get [OF b] set_item_get [OF m2] set_item_get [OF m1])
qed

lemma prepare_namelist_steps:
  assumes "prepare_namelist w mesh n alpha beta gamma cav np = Inr r"
  obtains t n1 n2 n3 n4 n5 where
    "read_template w np = Inr t"
    "set_mesh t (path mesh) = Inr n1"
    "set_partitioning n1 n = Inr n2"
    "(case alpha of None \<Rightarrow> Inr n2 | Some a \<Rightarrow> set_item n2 ''geometry'' ''alphaeuler'' a) = Inr n3"
    "(case beta of None \<Rightarrow> Inr n3 | Some a \<Rightarrow> set_item n3 ''geometry'' ''betaeuler'' a) = Inr n4"
    "(case gamma of None \<Rightarrow> Inr n4 | Some a \<Rightarrow> set_item n4 ''geometry'' ''gammaeuler'' a) = Inr n5"
    "(if cav then
        and_then (set_item n5 ''ale_def'' ''use_partial_cell'' (VBool True)) (\<lambda>nml.
        and_then (set_item nml ''run_config'' ''use_cavity'' (VBool True)) (\<lambda>nml.
        set_item nml ''run_config'' ''use_cavity_partial_cell'' (VBool True)))
      else Inr n5) = Inr r"
  using assms unfolding prepare_namelist_def and_then_Inr by blast

lemma prepare_namelist_get:
  assumes "prepare_namelist w mesh n alpha beta gamma cav np = Inr r"
    and "read_template w np = Inr t"
  shows "get_field r s k =
           (if cav \<and> (s, k) \<in> {(''ale_def'', ''use_partial_cell''), (''run_config'', ''use_cavity''),
                                 (''run_config'', ''use_cavity_partial_cell'')}
            then Some (VBool True)
            else if s = ''geometry'' \<and> k = ''gammaeuler'' \<and> gamma \<noteq> None then gamma
            else if s = ''geometry'' \<and> k = ''betaeuler'' \<and> beta \<noteq> None then beta
            else if s = ''geometry'' \<and> k = ''alphaeuler'' \<and> alpha \<noteq> None then alpha
            else if s = ''machine'' \<and> k = ''n_part'' then Some n
            else if s = ''machine'' \<and> k = ''n_levels'' then Some (VInt 1)
            else if s = ''paths'' \<and> k = ''meshpath'' then Some (VStr (path mesh))
            else get_field t s k)"
proof -
  from assms(1) obtain t' n1 n2 n3 n4 n5 where
    t: "read_template w np = Inr t'" and
    s1: "set_mesh t' (path mesh) = Inr n1" and
    s2: "set_partitioning n1 n = Inr n2" and
    s3: "(case alpha of None \<Rightarrow> Inr n2 | Some a \<Rightarrow> set_item n2 ''geometry'' ''alphaeuler'' a) = Inr n3" and
    s4: "(case beta of None \<Rightarrow> Inr n3 | Some a \<Rightarrow> set_item n3 ''geometry'' ''betaeuler'' a) = Inr n4" and
    s5: "(case gamma of None \<Rightarrow> Inr n4 | Some a \<Rightarrow> set_item n4 ''geometry'' ''gammaeuler'' a) = Inr n5" and
    s6: "(if cav then
            and_then (set_item n5 ''ale_def'' ''use_partial_cell'' (VBool True)) (\<lambda>nml.
            and_then (set_item nml ''run_config'' ''use_cavity'' (VBool True)) (\<lambda>nml.
            set_item nml ''run_config'' ''use_cavity_partial_cell'' (VBool True)))
          else Inr n5) = Inr r"
    by (rule prepare_namelist_steps)
  from t assms(2) have tt: "t' = t" by simp
  have g5: "get_field r s k =
              (if cav \<and> (s, k) \<in> {(''ale_def'', ''use_partial_cell''), (''run_config'', ''use_cavity''),
                                    (''run_config'', ''use_cavity_partial_cell'')}
               then Some (VBool True) else get_field n5 s k)"
  proof (cases cav)
    case True
    with s6 show ?thesis by (simp add: cavity_get)
  next
    case False
    with s6 show ?thesis by simp
  qed
  show ?thesis
    unfolding g5 angle_get [OF s5] angle_get [OF s4] angle_get [OF s3]
      set_partitioning_get [OF s2] set_mesh_get [OF s1] tt ..
qed

lemma set_partitioning_same_outside:
  assumes "set_partitioning a n = Inr b"
  shows "same_outside touched a b"
proof -
  from assms obtain m where m: "set_item a ''machine'' ''n_levels'' (VInt 1) = Inr m"
    and b: "set_item m ''machine'' ''n_part'' n = Inr b"
    by (auto simp: set_partitioning_def and_then_Inr)
  have "same_outside touched a m" using m by (rule set_item_same_outside) (simp add: touched_def)
  moreover have "same_outside touched m b"
    using b by (rule set_item_same_outside) (simp add: touched_def)
  ultimately show ?thesis by (rule same_outside_trans)
qed

lemma angle_same_outside:
  assumes "(case x of None \<Rightarrow> Inr a | Some v \<Rightarrow> set_item a s0 k0 v) = Inr b"
    and "(s0, k0) \<in> touched"
  shows "same_outside touched a b"
proof (cases x)
  case None
  with assms(1) show ?thesis by (simp add: same_outside_refl)
next
  case (Some v)
  with assms(1) have "set_item a s0 k0 v = Inr b" by simp
  then show ?thesis using assms(2) by (rule set_item_same_outside)
qed

lemma cavity_same_outside:
  assumes "and_then (set_item a ''ale_def'' ''use_partial_cell'' (VBool True)) (\<lambda>nml.
           and_then (set_item nml ''run_config'' ''use_cavity'' (VBool True)) (\<lambda>nml.
           set_item nml ''run_config'' ''use_cavity_partial_cell'' (VBool True))) = Inr b"
  shows "same_outside touched a b"
proof -
  from assms obtain m1 m2 where
    m1: "set_item a ''ale_def'' ''use_partial_cell'' (VBool True) = Inr m1" and
    m2: "set_item m1 ''run_config'' ''use_cavity'' (VBool True) = Inr m2" and
    b: "set_item m2 ''run_config'' ''use_cavity_partial_cell'' (VBool True) = Inr b"
    by (auto simp: and_then_Inr)
  have "same_outside touched a m1"
    using m1 by (rule set_item_same_outside) (simp add: touched_def)
  moreover have "same_outside touched m1 m2"
    using m2 by (rule set_item_same_outside) (simp add: touched_def)
  moreover have "same_outside touched m2 b"
    using b by (rule set_item_same_outside) (simp add: touched_def)
  ultimately show ?thesis by (blast intro: same_outside_trans)
qed

lemma prepare_namelist_same_outside:
  assumes "prepare_namelist w mesh n alpha beta gamma cav np = Inr r"
    and "read_template w np = Inr t"
  shows "same_outside touched t r"
proof -
  from assms(1) obtain t' n1 n2 n3 n4 n5 where
    t: "read_template w np = Inr t'" and
    s1: "set_mesh t' (path mesh) = Inr n1" and
    s2: "set_partitioning n1 n = Inr n2" and
    s3: "(case alpha of None \<Rightarrow> Inr n2 | Some a \<Rightarrow> set_item n2 ''geometry'' ''alphaeuler'' a) = Inr n3" and
    s4: "(case beta of None \<Rightarrow> Inr n3 | Some a \<Rightarrow> set_item n3 ''geometry'' ''betaeuler'' a) = Inr n4" and
    s5: "(case gamma of None \<Rightarrow> Inr n4 | Some a \<Rightarrow> set_item n4 ''geometry'' ''gammaeuler'' a) = Inr n5" and
    s6: "(if cav then
            and_then (set_item n5 ''ale_def'' ''use_partial_cell'' (VBool True)) (\<lambda>nml.
            and_then (set_item nml ''run_config'' ''use_cavity'' (VBool True)) (\<lambda>nml.
            set_item nml ''run_config'' ''use_cavity_partial_cell'' (VBool True)))
          else Inr n5) = Inr r"
    by (rule prepare_namelist_steps)
  from t assms(2) have tt: "t' = t" by simp
  have "same_outside touched t n1"
    using s1 unfolding set_mesh_def tt by (rule set_item_same_outside) (simp add: touched_def)
  moreover have "same_outside touched n1 n2" using s2 by (rule set_partitioning_same_outside)
  moreover have "same_outside touched n2 n3"
    using s3 by (rule angle_same_outside) (simp add: touched_def)
  moreover have "same_outside touched n3 n4"
    using s4 by (rule angle_same_outside) (simp add: touched_def)
  moreover have "same_outside touched n4 n5"
    using s5 by (rule angle_same_outside) (simp add: touched_def)
  moreover have "same_outside touched n5 r"
  proof (cases cav)
    case True
    with s6 show ?thesis by (simp add: cavity_same_outside)
  next
    case False
    with s6 show ?thesis by (simp add: same_outside_refl)
  qed
  ultimately show ?thesis by (blast intro: same_outside_trans)
qed

lemma angle_ok:
  assumes "x \<noteq> None \<Longrightarrow> occurrences a s0 = 1"
  obtains b where "(case x of None \<Rightarrow> Inr a | Some v \<Rightarrow> set_item a s0 k0 v) = Inr b"
proof (cases x)
  case None
  then show ?thesis using that by simp
next
  case (Some v)
  with assms have "occurrences a s0 = 1" by simp
  then obtain b where "set_item a s0 k0 v = Inr b" by (rule set_item_ok)
  with Some show ?thesis using that by simp
qed

lemma prepare_namelist_ok:
  assumes t: "read_template w np = Inr t"
    and req: "\<forall>s \<in> set (required_sections alpha beta gamma cav). occurrences t s = 1"
  obtains r where "prepare_namelist w mesh n alpha beta gamma cav np = Inr r"
proof -
  have geo: "occurrences t ''geometry'' = 1" if "alpha \<noteq> None \<or> beta \<noteq> None \<or> gamma \<noteq> None"
    using req that by (simp add: required_sections_def)
  from req have "occurrences t ''paths'' = 1" by (simp add: required_sections_def)
  then obtain n1 where s1: "set_mesh t (path mesh) = Inr n1"
    unfolding set_mesh_def by (rule set_item_ok)
  then have o1: "same_outside touched t n1"
    unfolding set_mesh_def by (rule set_item_same_outside) (simp add: touched_def)
  from req have "occurrences t ''machine'' = 1" by (simp add: required_sections_def)
  with o1 have p1: "occurrences n1 ''machine'' = 1" by (simp add: same_outside_present)
  then obtain m where m: "set_item n1 ''machine'' ''n_levels'' (VInt 1) = Inr m"
    by (rule set_item_ok)
  with p1 have "occurrences m ''machine'' = 1" by (simp add: set_item_present)
  then obtain n2 where "set_item m ''machine'' ''n_part'' n = Inr n2" by (rule set_item_ok)
  with m have s2: "set_partitioning n1 n = Inr n2"
    by (simp add: set_partitioning_def and_then_def)
  then have o2: "same_outside touched n1 n2" by (rule set_partitioning_same_outside)
  have "occurrences n2 ''geometry'' = 1" if "alpha \<noteq> None"
    using geo that o1 o2 by (simp add: same_outside_present)
  then obtain n3 where
    s3: "(case alpha of None \<Rightarrow> Inr n2 | Some a \<Rightarrow> set_item n2 ''geometry'' ''alphaeuler'' a) = Inr n3"
    by (rule angle_ok)
  then have o3: "same_outside touched n2 n3"
    by (rule angle_same_outside) (simp add: touched_def)
  have "occurrences n3 ''geometry'' = 1" if "beta \<noteq> None"
    using geo that o1 o2 o3 by (simp add: same_outside_present)
  then obtain n4 where
    s4: "(case beta of None \<Rightarrow> Inr n3 | Some a \<Rightarrow> set_item n3 ''geometry'' ''betaeuler'' a) = Inr n4"
    by (rule angle_ok)
  then have o4: "same_outside touched n3 n4"
    by (rule angle_same_outside) (simp add: touched_def)
  have "occurrences n4 ''geometry'' = 1" if "gamma \<noteq> None"
    using geo that o1 o2 o3 o4 by (simp add: same_outside_present)
  then obtain n5 where
    s5: "(case gamma of None \<Rightarrow> Inr n4 | Some a \<Rightarrow> set_item n4 ''geometry'' ''gammaeuler'' a) = Inr n5"
    by (rule angle_ok)
  then have o5: "same_outside touched n4 n5"
    by (rule angle_same_outside) (simp add: touched_def)
  have pres: "occurrences n5 s = occurrences t s" for s
    using o1 o2 o3 o4 o5 by (simp add: same_outside_present)
  obtain r where
    s6: "(if cav then
            and_then (set_item n5 ''ale_def'' ''use_partial_cell'' (VBool True)) (\<lambda>nml.
            and_then (set_item nml ''run_config'' ''use_cavity'' (VBool True)) (\<lambda>nml.
            set_item nml ''run_config'' ''use_cavity_partial_cell'' (VBool True)))
          else Inr n5) = Inr r"
  proof (cases cav)
    case False
    then show ?thesis using that by simp
  next
    case True
    with req have a: "occurrences t ''ale_def'' = 1" and c: "occurrences t ''run_config'' = 1"
      by (simp_all add: required_sections_def)
    from a have "occurrences n5 ''ale_def'' = 1" by (simp add: pres)
    then obtain m1 where m1: "set_item n5 ''ale_def'' ''use_partial_cell'' (VBool True) = Inr m1"
      by (rule set_item_ok)
    from c have "occurrences m1 ''run_config'' = 1" by (simp add: set_item_present [OF m1] pres)
    then obtain m2 where m2: "set_item m1 ''run_config'' ''use_cavity'' (VBool True) = Inr m2"
      by (rule set_item_ok)
    from c have "occurrences m2 ''run_config'' = 1"
      by (simp add: set_item_present [OF m2] set_item_present [OF m1] pres)
    then obtain m3 where
      m3: "set_item m2 ''run_config'' ''use_cavity_partial_cell'' (VBool True) = Inr m3"
      by (rule set_item_ok)
    show ?thesis using that [of m3] True m1 m2 m3 by (simp add: and_then_def)
  qed
  have "prepare_namelist w mesh n alpha beta gamma cav np = Inr r"
    unfolding prepare_namelist_def using t s1 s2 s3 s4 s5 s6 by (simp add: and_then_def)
  then show ?thesis by (rule that)
qed

lemma example_template_occurrences:
  "s \<in> {''paths'', ''machine'', ''geometry'', ''ale_def'', ''run_config''} \<Longrightarrow>
     occurrences example_template s = 1"
  by (auto simp: example_template_def occurrences_def groups_named_def)

lemma example_template_required:
  "\<forall>s \<in> set (required_sections al be ga cav). occurrences example_template s = 1"
  by (auto simp: required_sections_def example_template_occurrences)

section \<open>Facts about the runner\<close>

text \<open>
  Logging changes nothing but the log. One pass of \<^verbatim>\<open>partition_mesh\<close> either
  fails while the namelist is built, before anything is written, or writes the file and
  runs the binary once. The loop over the counts then composes passes.
\<close>

lemma info_fields:
  "files (info m w) = files w" "bundled (info m w) = bundled w" "which (info m w) = which w"
  "child (info m w) = child w" "spawned (info m w) = spawned w"
  by (simp_all add: info_def)

lemma read_template_info: "read_template (info m w) np = read_template w np"
  by (simp add: read_template_def info_fields split: option.split)

lemma prepare_namelist_info:
  "prepare_namelist (info m w) mesh n a b g cav np = prepare_namelist w mesh n a b g cav np"
  by (simp add: prepare_namelist_def read_template_info)

lemma partition_mesh_failed_build:
  assumes "prepare_namelist w mesh n a b g cav np = Inl e"
  shows "partition_mesh p w mesh n a b g cav np = (Inl e, w)"
  using assms by (simp add: partition_mesh_def)

lemma partition_mesh_run:
  assumes "prepare_namelist w mesh n a b g cav np = Inr nml"
    and "child w (bin p) ((files w)(''namelist.config'' \<mapsto> nml)) = (rc, fs)"
  shows "partition_mesh p w mesh n a b g cav np =
           (if rc \<noteq> 0
            then (Inl (CalledProcessError rc (bin p)),
                  w\<lparr>files := fs, spawned := spawned w @ [bin p],
                    logged := logged w @ [NamelistWritten (bin p), PartitioningWith (bin p)]\<rparr>)
            else (Inr (),
                  w\<lparr>files := fs, spawned := spawned w @ [bin p],
                    logged := logged w @ [NamelistWritten (bin p), PartitioningWith (bin p),
                                         Partitioned (bin p) n]\<rparr>))"
  using assms by (simp add: partition_mesh_def info_def Let_def)

lemma partition_mesh_spawned:
  assumes "partition_mesh p w mesh n a b g cav np = (r, w')"
  shows "spawned w' =
           (case r of Inl (CalledProcessError rc c) \<Rightarrow> spawned w @ [bin p]
            | Inl _ \<Rightarrow> spawned w | Inr _ \<Rightarrow> spawned w @ [bin p])"
proof (cases "prepare_namelist w mesh n a b g cav np")
  case (Inl e)
  then have "e \<noteq> CalledProcessError rc c" for rc c
    by (auto simp: prepare_namelist_def read_template_def set_mesh_def set_partitioning_def
        and_then_Inl set_item_Inl split: option.splits if_splits)
  with Inl assms show ?thesis
    by (cases e) (auto simp: partition_mesh_failed_build)
next
  case (Inr nml)
  obtain rc fs where c: "child w (bin p) ((files w)(''namelist.config'' \<mapsto> nml)) = (rc, fs)"
    by (cases "child w (bin p) ((files w)(''namelist.config'' \<mapsto> nml))")
  show ?thesis using assms by (auto simp: partition_mesh_run [OF Inr c] split: if_splits)
qed

lemma partition_all_append:
  "partition_all p w mesh (ms @ ns) a b g cav np =
     (case partition_all p w mesh ms a b g cav np of
        (Inl e, w') \<Rightarrow> (Inl e, w')
      | (Inr u, w') \<Rightarrow> partition_all p w' mesh ns a b g cav np)"
  by (induction ms arbitrary: w) (auto split: prod.splits sum.splits)

lemma partition_all_spawned:
  assumes "partition_all p w mesh ms a b g cav np = (Inr u, w')"
  shows "spawned w' = spawned w @ replicate (length ms) (bin p)"
  using assms
proof (induction ms arbitrary: w)
  case Nil
  then show ?case by simp
next
  case (Cons m ms)
  obtain r w1 where s: "partition_mesh p (info (PartitionScheme m) w) mesh (VInt m) a b g cav np = (r, w1)"
    by (cases "partition_mesh p (info (PartitionScheme m) w) mesh (VInt m) a b g cav np")
  with Cons.prems obtain v where r: "r = Inr v"
    and rest: "partition_all p w1 mesh ms a b g cav np = (Inr u, w')"
    by (cases r) auto
  from partition_mesh_spawned [OF s] r have "spawned w1 = spawned w @ [bin p]"
    by (simp add: info_fields)
  with Cons.IH [OF rest] show ?case by (simp add: replicate_app_Cons_same)
qed

section \<open>Facts about the conversion of counts\<close>

text \<open>
  \<^verbatim>\<open>int\<close> on a one-character string that is a digit gives that digit, and the
  conversion of a list of counts goes through the list from the left.
\<close>

lemma digit_py_int:
  assumes "is_digit c"
  shows "py_int (VStr [c]) = Inr (digit_val c)"
proof -
  from assms have n: "48 \<le> (of_char c :: nat)" "(of_char c :: nat) \<le> 57"
    by (simp_all add: is_digit_def)
  then have "\<not> is_space c" by (auto simp: is_space_def)
  then have s: "strip [c] = [c]" by (simp add: strip_def)
  from n have "c \<noteq> CHR ''-''" "c \<noteq> CHR ''+''" by auto
  with assms s show ?thesis by (simp add: py_int_def parse_int_def parse_unsigned_def)
qed

lemma convert_counts_append:
  "convert_counts (xs @ ys) =
     and_then (convert_counts xs) (\<lambda>ms. and_then (convert_counts ys) (\<lambda>ns. Inr (ms @ ns)))"
proof (induction xs)
  case Nil
  show ?case by (cases "convert_counts ys") (simp_all add: and_then_def)
next
  case (Cons x xs)
  show ?case
    by (cases "py_int x"; cases "convert_counts xs"; cases "convert_counts ys")
      (simp_all add: Cons.IH and_then_def)
qed

lemma convert_counts_ints: "convert_counts (map VInt ns) = Inr ns"
  by (induction ns) (simp_all add: and_then_def py_int_def)

lemma convert_counts_digits:
  "list_all is_digit s \<Longrightarrow> convert_counts (map (\<lambda>c. VStr [c]) s) = Inr (map digit_val s)"
  by (induction s) (simp_all add: and_then_def digit_py_int)

lemma digit_val_range: "is_digit c \<Longrightarrow> 0 \<le> digit_val c \<and> digit_val c \<le> 9"
  by (auto simp: is_digit_def digit_val_def)

section \<open>Facts about \<^verbatim>\<open>main\<close>\<close>

text \<open>
  The entry point up to the construction of the partitioner: the prompts and the log
  messages leave the files, the search path and the list of spawned commands alone.
\<close>

lemma fold_info_fields:
  "files (fold (\<lambda>n. info (f n)) xs w) = files w"
  "which (fold (\<lambda>n. info (f n)) xs w) = which w"
  "spawned (fold (\<lambda>n. info (f n)) xs w) = spawned w"
  by (induction xs arbitrary: w) (simp_all add: info_fields)

lemma add_custom_fields:
  "files (snd (add_custom xs w ts)) = files w"
  "which (snd (add_custom xs w ts)) = which w"
  "spawned (snd (add_custom xs w ts)) = spawned w"
  by (induction ts arbitrary: xs w) (simp_all add: Let_def fold_info_fields info_fields)

lemma select_partitions_fields:
  "files (snd (select_partitions w ans)) = files w"
  "which (snd (select_partitions w ans)) = which w"
  "spawned (snd (select_partitions w ans)) = spawned w"
  by (simp_all add: select_partitions_def add_custom_fields info_fields)

lemma main_unfold:
  assumes "(case rotated a of
               Some (x, y, z) \<Rightarrow>
                 (info (RotatingBy (VFloat x) (VFloat y) (VFloat z)) (info RotatedDetected w),
                  Some (VFloat x), Some (VFloat y), Some (VFloat z))
             | None \<Rightarrow> (w, None, None, None)) = (w1, al, be, ga)"
    and "(if n_part a = [] \<and> interactive a
          then select_partitions (if use_cavity a then info CavityEnabled w1 else w1) ans
          else (map VStr (n_part a), if use_cavity a then info CavityEnabled w1 else w1)) =
         (counts, w3)"
  shows "main w a ans =
     (if interactive a \<and> \<not> proceed ans then (Inr (), info Exiting w3)
      else
        (case convert_counts (if counts = [] then [VInt 288] else counts) of
           Inl e \<Rightarrow> (Inl e, w3)
         | Inr ns \<Rightarrow>
             (case MetisPartitioner_init
                     (info (NumSchemes (length ns))
                        (info (MeshPath (mesh_path a)) (info Beginning w3))) (fesom_ini a) of
                Inl e \<Rightarrow> (Inl e, info (NumSchemes (length ns))
                                    (info (MeshPath (mesh_path a)) (info Beginning w3)))
              | Inr partitoner \<Rightarrow>
                  partition_all partitoner
                    (info (NumSchemes (length ns))
                       (info (MeshPath (mesh_path a)) (info Beginning w3)))
                    \<lparr>path = mesh_path a\<rparr> ns al be ga (use_cavity a) (namelist a))))"
  using assms by (simp add: main_def Let_def cong: sum.case_cong)

lemma main_prelude:
  obtains w1 al be ga counts w3 where
    "(case rotated a of
               Some (x, y, z) \<Rightarrow>
                 (info (RotatingBy (VFloat x) (VFloat y) (VFloat z)) (info RotatedDetected w),
                  Some (VFloat x), Some (VFloat y), Some (VFloat z))
             | None \<Rightarrow> (w, None, None, None)) = (w1, al, be, ga)"
    "(if n_part a = [] \<and> interactive a
          then select_partitions (if use_cavity a then info CavityEnabled w1 else w1) ans
          else (map VStr (n_part a), if use_cavity a then info CavityEnabled w1 else w1)) =
         (counts, w3)"
    "files w3 = files w" "which w3 = which w" "spawned w3 = spawned w"
proof -
  obtain w1 al be ga where r: "(case rotated a of
               Some (x, y, z) \<Rightarrow>
                 (info (RotatingBy (VFloat x) (VFloat y) (VFloat z)) (info RotatedDetected w),
                  Some (VFloat x), Some (VFloat y), Some (VFloat z))
             | None \<Rightarrow> (w, None, None, None)) = (w1, al, be, ga)"
    and f1: "files w1 = files w" "which w1 = which w" "spawned w1 = spawned w"
    by (cases "rotated a") (auto simp: info_fields)
  let ?w2 = "if use_cavity a then info CavityEnabled w1 else w1"
  have f2: "files ?w2 = files w" "which ?w2 = which w" "spawned ?w2 = spawned w"
    using f1 by (simp_all add: info_fields)
  obtain counts w3 where s: "(if n_part a = [] \<and> interactive a
          then select_partitions ?w2 ans else (map VStr (n_part a), ?w2)) = (counts, w3)"
    by (cases "if n_part a = [] \<and> interactive a
          then select_partitions ?w2 ans else (map VStr (n_part a), ?w2)")
  have "w3 = snd (select_partitions ?w2 ans) \<or> w3 = ?w2"
    using s by (auto split: if_splits)
  then have "files w3 = files w \<and> which w3 = which w \<and> spawned w3 = spawned w"
    using f2 by (auto simp: select_partitions_fields)
  with r s show ?thesis using that by blast
qed

lemmas example_eval =
  example_world_def example_template_def info_def partition_mesh_def prepare_namelist_def
  read_template_def set_mesh_def set_partitioning_def set_item_def groups_named_def
  and_then_def get_field_def Let_def

section \<open>The claims\<close>

subsection \<open>C1: a failing partitioner run and the counts after it\<close>

text \<open>
  Claim C1 says that when the partitioner exits non-zero for one count, the counts after
  it are still attempted. The loop of \<^verbatim>\<open>main\<close> has no handler, so the code does
  the opposite, and the statement proved is the amended one: when the passes for the
  counts \<open>ms\<close> succeed and the pass for the next count \<open>n\<close> raises
  \<^verbatim>\<open>CalledProcessError\<close>, the loop over \<open>ms @ n # ns\<close> ends with that error in the
  state the failing pass left, whatever \<open>ns\<close> is: the binary has been run once for each
  count of \<open>ms\<close> and once for \<open>n\<close>, and never for a count of \<open>ns\<close>.
\<close>

theorem partition_all_stops_at_failure:
  assumes "partition_all p w mesh ms a b g cav np = (Inr (), w1)"
    and "partition_mesh p (info (PartitionScheme n) w1) mesh (VInt n) a b g cav np =
           (Inl (CalledProcessError rc c), w2)"
  shows "partition_all p w mesh (ms @ n # ns) a b g cav np = (Inl (CalledProcessError rc c), w2) \<and>
         spawned w2 = spawned w @ replicate (Suc (length ms)) (bin p)"
proof -
  have "partition_all p w mesh (ms @ n # ns) a b g cav np = (Inl (CalledProcessError rc c), w2)"
    using assms by (simp add: partition_all_append)
  moreover have "spawned w1 = spawned w @ replicate (length ms) (bin p)"
    using assms(1) by (rule partition_all_spawned)
  moreover have "spawned w2 = spawned w1 @ [bin p]"
    using partition_mesh_spawned [OF assms(2)] by (simp add: info_fields)
  ultimately show ?thesis by (simp add: replicate_append_same)
qed

text \<open>
  The sample partitioner fails on 4 partitions: of the counts 2, 4 and 8, the first two
  are run and the third is not.
\<close>

theorem partition_all_stops_at_failure_witness:
  "fst (partition_all \<lparr>bin = ''fesom_ini''\<rparr> (example_world 4) \<lparr>path = ''/data/mesh1''\<rparr>
          [2, 4, 8] None None None False None) = Inl (CalledProcessError 1 ''fesom_ini'') \<and>
   spawned (snd (partition_all \<lparr>bin = ''fesom_ini''\<rparr> (example_world 4) \<lparr>path = ''/data/mesh1''\<rparr>
          [2, 4, 8] None None None False None)) = [''fesom_ini'', ''fesom_ini'']"
proof -
  let ?p = "\<lparr>bin = ''fesom_ini''\<rparr>" and ?m = "\<lparr>path = ''/data/mesh1''\<rparr>"
  define w1 where "w1 = snd (partition_all ?p (example_world 4) ?m [2] None None None False None)"
  define w2 where
    "w2 = snd (partition_mesh ?p (info (PartitionScheme 4) w1) ?m (VInt 4) None None None False None)"
  have a1: "partition_all ?p (example_world 4) ?m [2] None None None False None = (Inr (), w1)"
    unfolding w1_def by (simp add: example_eval)
  have a2: "partition_mesh ?p (info (PartitionScheme 4) w1) ?m (VInt 4) None None None False None =
              (Inl (CalledProcessError 1 ''fesom_ini''), w2)"
    unfolding w2_def w1_def by (simp add: example_eval)
  have s: "spawned (example_world 4) = []" by (simp add: example_world_def)
  show ?thesis using partition_all_stops_at_failure [OF a1 a2, of "[8]"] by (simp add: s)
qed

text \<open>
  The claim as stated fails on the whole program: asked for 2, 4 and 8 partitions with a
  partitioner that exits with code 1 on 4, \<^verbatim>\<open>main\<close> ends with the error of the
  second pass, having run the binary twice and not three times.
\<close>

theorem main_aborts_remaining_counts:
  "fst (main (example_world 4) example_args example_answers) =
     Inl (CalledProcessError 1 ''fesom_ini'') \<and>
   spawned (snd (main (example_world 4) example_args example_answers)) =
     [''fesom_ini'', ''fesom_ini'']"
  by (simp add: main_def example_args_def example_answers_def example_world_def
      example_template_def MetisPartitioner_init_def bin_or_default_def BIN_def
      truthy_path_def info_def partition_mesh_def prepare_namelist_def read_template_def
      set_mesh_def set_partitioning_def set_item_def groups_named_def and_then_def
      get_field_def Let_def py_int_def parse_int_def parse_unsigned_def strip_def is_space_def is_digit_def
      digit_val_def)

subsection \<open>C2: the partition count is not validated\<close>

text \<open>
  Claim C2 says that a count that is not a positive integer is refused with
  \<^verbatim>\<open>InvalidPartitionCountError\<close>. \<^verbatim>\<open>set_partitioning\<close> has no such check, and
  the statement proved is the amended one: for every value \<open>n\<close>, positive integer or
  not, the call succeeds on a document in which the \<^verbatim>\<open>machine\<close> group occurs
  once, storing \<open>n\<close> as \<^verbatim>\<open>n_part\<close> and 1 as \<^verbatim>\<open>n_levels\<close>. It fails on no
  other ground than the document: with \<^verbatim>\<open>KeyError\<close> when there is no
  \<^verbatim>\<open>machine\<close> group, with \<^verbatim>\<open>TypeError\<close> when there are several.
\<close>

theorem set_partitioning_stores_any_value:
  "(occurrences nml ''machine'' = 1 \<longrightarrow>
      (\<exists>nml'. set_partitioning nml n = Inr nml' \<and>
         get_field nml' ''machine'' ''n_part'' = Some n \<and>
         get_field nml' ''machine'' ''n_levels'' = Some (VInt 1))) \<and>
   (occurrences nml ''machine'' = 0 \<longrightarrow> set_partitioning nml n = Inl (KeyError ''machine'')) \<and>
   (2 \<le> occurrences nml ''machine'' \<longrightarrow> set_partitioning nml n = Inl (TypeError ''machine''))"
proof (intro conjI impI)
  assume one: "occurrences nml ''machine'' = 1"
  then obtain m where m: "set_item nml ''machine'' ''n_levels'' (VInt 1) = Inr m"
    by (rule set_item_ok)
  with one have "occurrences m ''machine'' = 1" by (simp add: set_item_present)
  then obtain b where b: "set_item m ''machine'' ''n_part'' n = Inr b" by (rule set_item_ok)
  from m b have r: "set_partitioning nml n = Inr b"
    by (simp add: set_partitioning_def and_then_def)
  then show "\<exists>nml'. set_partitioning nml n = Inr nml' \<and>
         get_field nml' ''machine'' ''n_part'' = Some n \<and>
         get_field nml' ''machine'' ''n_levels'' = Some (VInt 1)"
    by (simp add: set_partitioning_get [OF r])
next
  assume "occurrences nml ''machine'' = 0"
  then have "set_item nml ''machine'' ''n_levels'' (VInt 1) = Inl (KeyError ''machine'')"
    by (simp add: set_item_Inl)
  then show "set_partitioning nml n = Inl (KeyError ''machine'')"
    by (simp add: set_partitioning_def and_then_def)
next
  assume "2 \<le> occurrences nml ''machine''"
  then have "set_item nml ''machine'' ''n_levels'' (VInt 1) = Inl (TypeError ''machine'')"
    by (simp add: set_item_Inl)
  then show "set_partitioning nml n = Inl (TypeError ''machine'')"
    by (simp add: set_partitioning_def and_then_def)
qed

text \<open>
  The count -5 is stored in a document whose \<^verbatim>\<open>machine\<close> group is empty; on the
  empty document the call raises \<^verbatim>\<open>KeyError\<close> and on a document with two
  \<^verbatim>\<open>machine\<close> groups \<^verbatim>\<open>TypeError\<close>, whatever the count.
\<close>

theorem set_partitioning_stores_any_value_witness:
  "(\<exists>nml'. set_partitioning [(''machine'', [])] (VInt (- 5)) = Inr nml' \<and>
         get_field nml' ''machine'' ''n_part'' = Some (VInt (- 5)) \<and>
         get_field nml' ''machine'' ''n_levels'' = Some (VInt 1)) \<and>
   set_partitioning [] (VStr ''abc'') = Inl (KeyError ''machine'') \<and>
   set_partitioning [(''machine'', [(''n_part'', VInt 2)]), (''machine'', [(''n_part'', VInt 4)])]
     (VInt 8) = Inl (TypeError ''machine'')"
proof -
  have o1: "occurrences [(''machine'', [])] ''machine'' = 1"
    and o0: "occurrences [] ''machine'' = 0"
    and o2: "2 \<le> occurrences [(''machine'', [(''n_part'', VInt 2)]),
                              (''machine'', [(''n_part'', VInt 4)])] ''machine''"
    by (simp_all add: occurrences_def groups_named_def)
  show ?thesis
    using set_partitioning_stores_any_value [of "[(''machine'', [])]" "VInt (- 5)"] set_partitioning_stores_any_value [of "[]" "VStr ''abc''"]
      set_partitioning_stores_any_value [of "[(''machine'', [(''n_part'', VInt 2)]), (''machine'', [(''n_part'', VInt 4)])]"
          "VInt 8"]
    unfolding o1 o0 using o2 by simp
qed

text \<open>
  The claim as stated fails at the count 0: the call returns the document with
  \<^verbatim>\<open>n_part\<close> set to 0.
\<close>

theorem set_partitioning_accepts_zero:
  "set_partitioning [(''machine'', [(''n_levels'', VInt 3), (''n_part'', VInt 288)])] (VInt 0) =
     Inr [(''machine'', [(''n_levels'', VInt 1), (''n_part'', VInt 0)])]"
  by (simp add: set_partitioning_def set_item_def groups_named_def and_then_def)

subsection \<open>C3: the three Euler angles are applied one by one\<close>

text \<open>
  Claim C3 says that a call with only one or two of the three angles fails. Each angle
  has its own test in \<^verbatim>\<open>prepare_namelist\<close>, and the statement proved is the
  amended one: on a template in which each group the call looks up occurs once, the
  call returns a document whatever subset of the angles is given; in it each angle that
  is given is the value of its field in \<^verbatim>\<open>geometry\<close>, and the field of an angle
  that is not given is as in the template. With all three given, the three fields are
  exactly the three values.
\<close>

theorem prepare_namelist_angles_independent:
  assumes "read_template w np = Inr t"
    and "\<forall>s \<in> set (required_sections alpha beta gamma cav). occurrences t s = 1"
  shows "\<exists>r. prepare_namelist w mesh n alpha beta gamma cav np = Inr r \<and>
           get_field r ''geometry'' ''alphaeuler'' =
             (case alpha of None \<Rightarrow> get_field t ''geometry'' ''alphaeuler'' | Some a \<Rightarrow> Some a) \<and>
           get_field r ''geometry'' ''betaeuler'' =
             (case beta of None \<Rightarrow> get_field t ''geometry'' ''betaeuler'' | Some b \<Rightarrow> Some b) \<and>
           get_field r ''geometry'' ''gammaeuler'' =
             (case gamma of None \<Rightarrow> get_field t ''geometry'' ''gammaeuler'' | Some c \<Rightarrow> Some c)"
proof -
  from assms obtain r where r: "prepare_namelist w mesh n alpha beta gamma cav np = Inr r"
    by (rule prepare_namelist_ok)
  note g = prepare_namelist_get [OF r assms(1)]
  have "get_field r ''geometry'' ''alphaeuler'' =
          (case alpha of None \<Rightarrow> get_field t ''geometry'' ''alphaeuler'' | Some a \<Rightarrow> Some a)"
    by (simp add: g split: option.split)
  moreover have "get_field r ''geometry'' ''betaeuler'' =
          (case beta of None \<Rightarrow> get_field t ''geometry'' ''betaeuler'' | Some b \<Rightarrow> Some b)"
    by (simp add: g split: option.split)
  moreover have "get_field r ''geometry'' ''gammaeuler'' =
          (case gamma of None \<Rightarrow> get_field t ''geometry'' ''gammaeuler'' | Some c \<Rightarrow> Some c)"
    by (simp add: g split: option.split)
  ultimately show ?thesis using r by blast
qed

text \<open>
  On the sample template, whose angles are 50, 15 and -90: the rotation (10, 20, 30)
  sets all three; \<^verbatim>\<open>beta\<close> alone sets one and keeps two; \<^verbatim>\<open>alpha\<close> and
  \<^verbatim>\<open>gamma\<close> without \<^verbatim>\<open>beta\<close>, with the cavity flag, set two and keep one.
\<close>

theorem prepare_namelist_angles_independent_witness:
  "(\<exists>r. prepare_namelist (example_world 0) \<lparr>path = ''/data/mesh1''\<rparr> (VInt 288)
          (Some (VFloat 10)) (Some (VFloat 20)) (Some (VFloat 30)) False None = Inr r \<and>
       get_field r ''geometry'' ''alphaeuler'' = Some (VFloat 10) \<and>
       get_field r ''geometry'' ''betaeuler'' = Some (VFloat 20) \<and>
       get_field r ''geometry'' ''gammaeuler'' = Some (VFloat 30)) \<and>
   (\<exists>r. prepare_namelist (example_world 0) \<lparr>path = ''/data/mesh1''\<rparr> (VInt 288)
          None (Some (VFloat 20)) None False None = Inr r \<and>
       get_field r ''geometry'' ''alphaeuler'' = Some (VFloat 50) \<and>
       get_field r ''geometry'' ''betaeuler'' = Some (VFloat 20) \<and>
       get_field r ''geometry'' ''gammaeuler'' = Some (VFloat (- 90))) \<and>
   (\<exists>r. prepare_namelist (example_world 0) \<lparr>path = ''/data/mesh1''\<rparr> (VInt 288)
          (Some (VFloat 10)) None (Some (VFloat 30)) True None = Inr r \<and>
       get_field r ''geometry'' ''alphaeuler'' = Some (VFloat 10) \<and>
       get_field r ''geometry'' ''betaeuler'' = Some (VFloat 15) \<and>
       get_field r ''geometry'' ''gammaeuler'' = Some (VFloat 30))"
proof -
  have t: "read_template (example_world 0) None = Inr example_template"
    by (simp add: read_template_def example_world_def)
  note req = example_template_required
  have g: "get_field example_template ''geometry'' ''alphaeuler'' = Some (VFloat 50)"
    "get_field example_template ''geometry'' ''betaeuler'' = Some (VFloat 15)"
    "get_field example_template ''geometry'' ''gammaeuler'' = Some (VFloat (- 90))"
    by (simp_all add: example_template_def get_field_def)
  show ?thesis
    using
      prepare_namelist_angles_independent [where alpha = "Some (VFloat 10)" and beta = "Some (VFloat 20)"
            and gamma = "Some (VFloat 30)" and cav = False
            and mesh = "\<lparr>path = ''/data/mesh1''\<rparr>" and n = "VInt 288", OF t req]
      prepare_namelist_angles_independent [where alpha = None and beta = "Some (VFloat 20)" and gamma = None and cav = False
            and mesh = "\<lparr>path = ''/data/mesh1''\<rparr>" and n = "VInt 288", OF t req]
      prepare_namelist_angles_independent [where alpha = "Some (VFloat 10)" and beta = None and gamma = "Some (VFloat 30)"
            and cav = True
            and mesh = "\<lparr>path = ''/data/mesh1''\<rparr>" and n = "VInt 288", OF t req]
    by (simp add: g)
qed

text \<open>
  The claim as stated fails when \<^verbatim>\<open>alpha\<close> alone is given: the call returns a
  document in which \<^verbatim>\<open>alphaeuler\<close> is the new value 10 and the other two angles are
  the template's 15 and -90.
\<close>

theorem prepare_namelist_partial_rotation:
  "prepare_namelist (example_world 0) \<lparr>path = ''/data/mesh1''\<rparr> (VInt 288)
      (Some (VFloat 10)) None None False None =
   Inr [(''paths'', [(''meshpath'', VStr ''/data/mesh1''), (''resultpath'', VStr ''/out'')]),
      (''machine'', [(''n_levels'', VInt 1), (''n_part'', VInt 288)]),
      (''geometry'', [(''alphaeuler'', VFloat 10), (''betaeuler'', VFloat 15),
                      (''gammaeuler'', VFloat (- 90))]),
      (''ale_def'', [(''use_partial_cell'', VBool False)]),
      (''run_config'', [(''use_cavity'', VBool False),
                        (''use_cavity_partial_cell'', VBool False)])]"
  by (simp add: prepare_namelist_def read_template_def example_world_def example_template_def
      and_then_def set_mesh_def set_partitioning_def set_item_def groups_named_def)

subsection \<open>C4: the partition count and the level count\<close>

text \<open>
  Claim C4: for every positive integer \<open>n\<close> and every template, applying the count
  sets \<^verbatim>\<open>machine.n_part\<close> to \<open>n\<close> and \<^verbatim>\<open>machine.n_levels\<close> to 1, whatever
  the two fields were before (they need not exist). The template is a document with
  one \<^verbatim>\<open>machine\<close> group, as the data model of the specification requires of every
  template: a mapping of section names to sections, with the sections the program
  refers to.
\<close>

theorem set_partitioning_positive:
  assumes "0 < n" and "occurrences nml ''machine'' = 1"
  shows "\<exists>nml'. set_partitioning nml (VInt n) = Inr nml' \<and>
           get_field nml' ''machine'' ''n_part'' = Some (VInt n) \<and>
           get_field nml' ''machine'' ''n_levels'' = Some (VInt 1)"
proof -
  from assms(2) obtain m where m: "set_item nml ''machine'' ''n_levels'' (VInt 1) = Inr m"
    by (rule set_item_ok)
  with assms(2) have "occurrences m ''machine'' = 1" by (simp add: set_item_present)
  then obtain b where b: "set_item m ''machine'' ''n_part'' (VInt n) = Inr b"
    by (rule set_item_ok)
  from m b have r: "set_partitioning nml (VInt n) = Inr b"
    by (simp add: set_partitioning_def and_then_def)
  have "get_field b ''machine'' ''n_part'' = Some (VInt n)"
    and "get_field b ''machine'' ''n_levels'' = Some (VInt 1)"
    by (simp_all add: set_partitioning_get [OF r])
  with r show ?thesis by blast
qed

text \<open>
  The count 288 on the sample template, whose fields were 3 and 2.
\<close>

theorem set_partitioning_positive_witness:
  "\<exists>nml'. set_partitioning example_template (VInt 288) = Inr nml' \<and>
           get_field nml' ''machine'' ''n_part'' = Some (VInt 288) \<and>
           get_field nml' ''machine'' ''n_levels'' = Some (VInt 1)"
proof -
  have "(0::int) < 288" by simp
  moreover have "occurrences example_template ''machine'' = 1"
    by (simp add: example_template_occurrences)
  ultimately show ?thesis by (rule set_partitioning_positive)
qed

subsection \<open>C5: the cavity flag\<close>

text \<open>
  Claim C5: whenever \<^verbatim>\<open>prepare_namelist\<close> returns a document, with the cavity flag
  set the three fields \<^verbatim>\<open>ale_def.use_partial_cell\<close>, \<^verbatim>\<open>run_config.use_cavity\<close>
  and \<^verbatim>\<open>run_config.use_cavity_partial_cell\<close> are true in it, and with the flag not
  set the three fields are what they were in the template (missing where they were
  missing).
\<close>

theorem prepare_namelist_cavity:
  assumes "read_template w np = Inr t"
    and "prepare_namelist w mesh n alpha beta gamma cav np = Inr r"
  shows "if cav
         then get_field r ''ale_def'' ''use_partial_cell'' = Some (VBool True) \<and>
              get_field r ''run_config'' ''use_cavity'' = Some (VBool True) \<and>
              get_field r ''run_config'' ''use_cavity_partial_cell'' = Some (VBool True)
         else get_field r ''ale_def'' ''use_partial_cell'' =
                get_field t ''ale_def'' ''use_partial_cell'' \<and>
              get_field r ''run_config'' ''use_cavity'' = get_field t ''run_config'' ''use_cavity'' \<and>
              get_field r ''run_config'' ''use_cavity_partial_cell'' =
                get_field t ''run_config'' ''use_cavity_partial_cell''"
  by (simp add: prepare_namelist_get [OF assms(2) assms(1)])

text \<open>
  On the sample template, where the three fields are false: they are true with the flag
  and stay false without it.
\<close>

theorem prepare_namelist_cavity_witness:
  "(\<exists>r. prepare_namelist (example_world 0) \<lparr>path = ''/data/mesh1''\<rparr> (VInt 288)
           None None None True None = Inr r \<and>
        get_field r ''ale_def'' ''use_partial_cell'' = Some (VBool True) \<and>
        get_field r ''run_config'' ''use_cavity'' = Some (VBool True) \<and>
        get_field r ''run_config'' ''use_cavity_partial_cell'' = Some (VBool True)) \<and>
   (\<exists>r. prepare_namelist (example_world 0) \<lparr>path = ''/data/mesh1''\<rparr> (VInt 288)
           None None None False None = Inr r \<and>
        get_field r ''ale_def'' ''use_partial_cell'' = Some (VBool False) \<and>
        get_field r ''run_config'' ''use_cavity'' = Some (VBool False) \<and>
        get_field r ''run_config'' ''use_cavity_partial_cell'' = Some (VBool False))"
proof -
  let ?m = "\<lparr>path = ''/data/mesh1''\<rparr>"
  have t: "read_template (example_world 0) None = Inr example_template"
    by (simp add: read_template_def example_world_def)
  note req = example_template_required
  obtain r1 where
    r1: "prepare_namelist (example_world 0) ?m (VInt 288) None None None True None = Inr r1"
    using t req by (rule prepare_namelist_ok)
  obtain r2 where
    r2: "prepare_namelist (example_world 0) ?m (VInt 288) None None None False None = Inr r2"
    using t req by (rule prepare_namelist_ok)
  have g: "get_field example_template ''ale_def'' ''use_partial_cell'' = Some (VBool False)"
    "get_field example_template ''run_config'' ''use_cavity'' = Some (VBool False)"
    "get_field example_template ''run_config'' ''use_cavity_partial_cell'' = Some (VBool False)"
    by (simp_all add: example_template_def get_field_def)
  from prepare_namelist_cavity [OF t r1] prepare_namelist_cavity [OF t r2] r1 r2 show ?thesis by (simp add: g)
qed

subsection \<open>C6: a failing run leaves the configuration file\<close>

text \<open>
  Claim C6: when the namelist has been built and the partitioner, started on the files
  that hold it as \<^verbatim>\<open>namelist.config\<close>, exits with a code other than 0, the pass
  raises the error of a failed child process (\<^verbatim>\<open>CalledProcessError\<close> in the code)
  and the files are exactly as the partitioner left them: the program has written the
  configuration before the spawn and removes or rewrites nothing after it.
\<close>

theorem partition_mesh_failure_keeps_config:
  assumes "prepare_namelist w mesh n a b g cav np = Inr nml"
    and "child w (bin p) ((files w)(''namelist.config'' \<mapsto> nml)) = (rc, fs)"
    and "rc \<noteq> 0"
  shows "fst (partition_mesh p w mesh n a b g cav np) = Inl (CalledProcessError rc (bin p)) \<and>
         files (snd (partition_mesh p w mesh n a b g cav np)) = fs \<and>
         spawned (snd (partition_mesh p w mesh n a b g cav np)) = spawned w @ [bin p]"
  using assms(3) by (simp add: partition_mesh_run [OF assms(1) assms(2)])

text \<open>
  The sample partitioner fails on 4 partitions and leaves the files alone: after the
  pass \<^verbatim>\<open>namelist.config\<close> holds the configuration written for it.
\<close>

theorem partition_mesh_failure_keeps_config_witness:
  "fst (partition_mesh \<lparr>bin = ''fesom_ini''\<rparr> (example_world 4) \<lparr>path = ''/data/mesh1''\<rparr>
          (VInt 4) None None None False None) = Inl (CalledProcessError 1 ''fesom_ini'') \<and>
   files (snd (partition_mesh \<lparr>bin = ''fesom_ini''\<rparr> (example_world 4) \<lparr>path = ''/data/mesh1''\<rparr>
          (VInt 4) None None None False None)) ''namelist.config'' =
     Some [(''paths'', [(''meshpath'', VStr ''/data/mesh1''), (''resultpath'', VStr ''/out'')]),
      (''machine'', [(''n_levels'', VInt 1), (''n_part'', VInt 4)]),
      (''geometry'', [(''alphaeuler'', VFloat 50), (''betaeuler'', VFloat 15),
                      (''gammaeuler'', VFloat (- 90))]),
      (''ale_def'', [(''use_partial_cell'', VBool False)]),
      (''run_config'', [(''use_cavity'', VBool False),
                        (''use_cavity_partial_cell'', VBool False)])]"
proof -
  let ?p = "\<lparr>bin = ''fesom_ini''\<rparr>" and ?m = "\<lparr>path = ''/data/mesh1''\<rparr>"
  let ?nml = "[(''paths'', [(''meshpath'', VStr ''/data/mesh1''), (''resultpath'', VStr ''/out'')]),
      (''machine'', [(''n_levels'', VInt 1), (''n_part'', VInt 4)]),
      (''geometry'', [(''alphaeuler'', VFloat 50), (''betaeuler'', VFloat 15),
                      (''gammaeuler'', VFloat (- 90))]),
      (''ale_def'', [(''use_partial_cell'', VBool False)]),
      (''run_config'', [(''use_cavity'', VBool False),
                        (''use_cavity_partial_cell'', VBool False)])]"
  have a1: "prepare_namelist (example_world 4) ?m (VInt 4) None None None False None = Inr ?nml"
    by (simp add: example_eval)
  have a2: "child (example_world 4) (bin ?p)
              ((files (example_world 4))(''namelist.config'' \<mapsto> ?nml)) =
            (1, (files (example_world 4))(''namelist.config'' \<mapsto> ?nml))"
    by (simp add: example_world_def get_field_def)
  have a3: "(1::int) \<noteq> 0" by simp
  show ?thesis using partition_mesh_failure_keeps_config [OF a1 a2 a3] by simp
qed

subsection \<open>C7: what building a configuration leaves unchanged\<close>

text \<open>
  Claim C7: whenever \<^verbatim>\<open>prepare_namelist\<close> returns a document, it has the groups of
  the template in the same order, every group other than \<^verbatim>\<open>paths\<close>,
  \<^verbatim>\<open>machine\<close>, \<^verbatim>\<open>geometry\<close>, \<^verbatim>\<open>ale_def\<close> and \<^verbatim>\<open>run_config\<close> is
  identical to the template's (each of them, where a name occurs several times), and
  every field other than the nine the function may assign has the value it had in the
  template. The function reads the template and otherwise works on the document
  alone: it takes the world and returns none.
\<close>

theorem prepare_namelist_frame:
  assumes "read_template w np = Inr t"
    and "prepare_namelist w mesh n alpha beta gamma cav np = Inr r"
  shows "map fst r = map fst t \<and>
         (\<forall>s. s \<notin> {''paths'', ''machine'', ''geometry'', ''ale_def'', ''run_config''} \<longrightarrow>
              map_of r s = map_of t s) \<and>
         (\<forall>s. s \<notin> {''paths'', ''machine'', ''geometry'', ''ale_def'', ''run_config''} \<longrightarrow>
              groups_named r s = groups_named t s) \<and>
         (\<forall>s k. (s, k) \<notin>
              {(''paths'', ''meshpath''), (''machine'', ''n_levels''), (''machine'', ''n_part''),
               (''geometry'', ''alphaeuler''), (''geometry'', ''betaeuler''),
               (''geometry'', ''gammaeuler''), (''ale_def'', ''use_partial_cell''),
               (''run_config'', ''use_cavity''), (''run_config'', ''use_cavity_partial_cell'')} \<longrightarrow>
              get_field r s k = get_field t s k)"
proof -
  have o: "same_outside touched t r"
    using assms(2) assms(1) by (rule prepare_namelist_same_outside)
  have f: "fst ` touched = {''paths'', ''machine'', ''geometry'', ''ale_def'', ''run_config''}"
    by (auto simp: touched_def)
  from o have "map fst r = map fst t" by (simp add: same_outside_def)
  moreover from o have "\<forall>s. s \<notin> fst ` touched \<longrightarrow> map_of r s = map_of t s"
    by (simp add: same_outside_def)
  moreover from o have "\<forall>s. s \<notin> fst ` touched \<longrightarrow> groups_named r s = groups_named t s"
    by (simp add: same_outside_def)
  moreover from o have "\<forall>s k. (s, k) \<notin> touched \<longrightarrow> get_field r s k = get_field t s k"
    by (simp add: same_outside_def)
  ultimately show ?thesis unfolding f unfolding touched_def by blast
qed

text \<open>
  On the sample template with a rotation and the cavity flag: the five groups are kept
  in order, and \<^verbatim>\<open>paths.resultpath\<close>, which the function never assigns, is
  unchanged.
\<close>

theorem prepare_namelist_frame_witness:
  "\<exists>r. prepare_namelist (example_world 0) \<lparr>path = ''/data/mesh1''\<rparr> (VInt 288)
           (Some (VFloat 10)) (Some (VFloat 20)) (Some (VFloat 30)) True None = Inr r \<and>
       map fst r = [''paths'', ''machine'', ''geometry'', ''ale_def'', ''run_config''] \<and>
       get_field r ''paths'' ''resultpath'' = Some (VStr ''/out'')"
proof -
  let ?m = "\<lparr>path = ''/data/mesh1''\<rparr>"
  have t: "read_template (example_world 0) None = Inr example_template"
    by (simp add: read_template_def example_world_def)
  note req = example_template_required
  obtain r where r: "prepare_namelist (example_world 0) ?m (VInt 288)
           (Some (VFloat 10)) (Some (VFloat 20)) (Some (VFloat 30)) True None = Inr r"
    using t req by (rule prepare_namelist_ok)
  have k: "map fst example_template = [''paths'', ''machine'', ''geometry'', ''ale_def'', ''run_config'']"
    by (simp add: example_template_def)
  have g: "get_field example_template ''paths'' ''resultpath'' = Some (VStr ''/out'')"
    by (simp add: example_template_def get_field_def)
  from prepare_namelist_frame [OF t r] have "map fst r = map fst example_template"
    and "get_field r ''paths'' ''resultpath'' = get_field example_template ''paths'' ''resultpath''"
    by simp_all
  with r k g show ?thesis by simp
qed

subsection \<open>C8: setting the mesh path twice\<close>

text \<open>
  Claim C8: for every document and every path, \<^verbatim>\<open>set_mesh\<close> applied twice with the
  same path gives what one application gives: the same document when the first call
  succeeds, the same \<^verbatim>\<open>KeyError\<close> when it does not.
\<close>

theorem set_mesh_idempotent: "and_then (set_mesh nml p) (\<lambda>nml'. set_mesh nml' p) = set_mesh nml p"
proof (cases "groups_named nml ''paths''")
  case Nil
  then show ?thesis by (simp add: set_mesh_def set_item_def and_then_def)
next
  case (Cons g gs)
  show ?thesis
  proof (cases gs)
    case Nil
    with Cons have one: "groups_named nml ''paths'' = [g]" by simp
    then show ?thesis
      by (simp add: set_mesh_def set_item_def and_then_def groups_named_update_same)
  next
    case (Cons g' gs')
    with \<open>groups_named nml ''paths'' = g # gs\<close> show ?thesis
      by (simp add: set_mesh_def set_item_def and_then_def)
  qed
qed

subsection \<open>C9: a custom count is taken apart into its digits\<close>

text \<open>
  Claim C9: in the interactive flow, a text \<open>s\<close> of digits entered as a custom count
  extends the list of the ticked counts by one one-character string for each character
  of \<open>s\<close>, and the conversion of line 231 then gives the ticked counts followed by the
  digits of \<open>s\<close>, each a number from 0 to 9: as many counts as \<open>s\<close> has characters,
  not the one number \<open>s\<close> writes.
\<close>

theorem custom_count_split_into_digits:
  assumes "list_all is_digit s"
  shows "fst (select_partitions w \<lparr>selected = sel, customs = [s], proceed = b\<rparr>) =
           map VInt sel @ map (\<lambda>c. VStr [c]) s \<and>
         convert_counts (fst (select_partitions w \<lparr>selected = sel, customs = [s], proceed = b\<rparr>)) =
           Inr (sel @ map digit_val s) \<and>
         list_all (\<lambda>k. 0 \<le> k \<and> k \<le> 9) (map digit_val s)"
proof -
  have f: "fst (select_partitions w \<lparr>selected = sel, customs = [s], proceed = b\<rparr>) =
           map VInt sel @ map (\<lambda>c. VStr [c]) s"
    by (simp add: select_partitions_def iadd_str_def Let_def)
  have "convert_counts (map VInt sel @ map (\<lambda>c. VStr [c]) s) = Inr (sel @ map digit_val s)"
    using assms
    by (simp add: convert_counts_append convert_counts_ints convert_counts_digits and_then_def)
  moreover have "list_all (\<lambda>k. 0 \<le> k \<and> k \<le> 9) (map digit_val s)"
    using assms by (induction s) (simp_all add: digit_val_range)
  ultimately show ?thesis using f by simp
qed

text \<open>
  With 72 ticked and \<^verbatim>\<open>128\<close> entered, the counts are 72, 1, 2 and 8.
\<close>

theorem custom_count_split_into_digits_witness:
  "fst (select_partitions (example_world 0) example_answers) =
     [VInt 72, VStr ''1'', VStr ''2'', VStr ''8''] \<and>
   convert_counts (fst (select_partitions (example_world 0) example_answers)) = Inr [72, 1, 2, 8]"
proof -
  have d: "list_all is_digit ''128''" by (simp add: is_digit_def)
  have e: "[72] @ map digit_val ''128'' = [72, 1, 2, 8]" by (simp add: digit_val_def)
  have m: "map VInt [72] @ map (\<lambda>c. VStr [c]) ''128'' =
             [VInt 72, VStr ''1'', VStr ''2'', VStr ''8'']" by simp
  show ?thesis
    using custom_count_split_into_digits [OF d, of "example_world 0" "[72]" True]
    unfolding example_answers_def e m by blast
qed

subsection \<open>C10: the default binary and the search path\<close>

text \<open>
  Claim C10: with no name or the empty name the constructor takes \<^verbatim>\<open>fesom_ini\<close>;
  whatever name it takes, it raises \<^verbatim>\<open>MetisPartitionerError\<close> with that name when
  the search path does not have it; and when it raises in \<^verbatim>\<open>main\<close>, no file has
  been written and nothing has been spawned.
\<close>

theorem MetisPartitioner_init_default:
  "((b = None \<or> b = Some []) \<longrightarrow>
      MetisPartitioner_init w b =
        (if truthy_path (which w ''fesom_ini'') then Inr \<lparr>bin = ''fesom_ini''\<rparr>
         else Inl (MetisPartitionerError ''fesom_ini''))) \<and>
   (\<not> truthy_path (which w (bin_or_default b)) \<longrightarrow>
      MetisPartitioner_init w b = Inl (MetisPartitionerError (bin_or_default b))) \<and>
   (\<not> truthy_path (which w (bin_or_default (fesom_ini a))) \<longrightarrow>
      files (snd (main w a ans)) = files w \<and> spawned (snd (main w a ans)) = spawned w)"
proof (intro conjI impI)
  assume "b = None \<or> b = Some []"
  then have "bin_or_default b = ''fesom_ini''" by (auto simp: bin_or_default_def BIN_def)
  then show "MetisPartitioner_init w b =
        (if truthy_path (which w ''fesom_ini'') then Inr \<lparr>bin = ''fesom_ini''\<rparr>
         else Inl (MetisPartitionerError ''fesom_ini''))"
    by (simp add: MetisPartitioner_init_def)
next
  assume "\<not> truthy_path (which w (bin_or_default b))"
  then show "MetisPartitioner_init w b = Inl (MetisPartitionerError (bin_or_default b))"
    by (simp add: MetisPartitioner_init_def)
next
  assume nf: "\<not> truthy_path (which w (bin_or_default (fesom_ini a)))"
  obtain w1 al be ga counts w3 where
    r: "(case rotated a of
               Some (x, y, z) \<Rightarrow>
                 (info (RotatingBy (VFloat x) (VFloat y) (VFloat z)) (info RotatedDetected w),
                  Some (VFloat x), Some (VFloat y), Some (VFloat z))
             | None \<Rightarrow> (w, None, None, None)) = (w1, al, be, ga)" and
    s: "(if n_part a = [] \<and> interactive a
          then select_partitions (if use_cavity a then info CavityEnabled w1 else w1) ans
          else (map VStr (n_part a), if use_cavity a then info CavityEnabled w1 else w1)) =
         (counts, w3)" and
    f: "files w3 = files w" "which w3 = which w" "spawned w3 = spawned w"
    by (rule main_prelude)
  have init: "MetisPartitioner_init (info m1 (info m2 (info m3 w3))) (fesom_ini a) =
                Inl (MetisPartitionerError (bin_or_default (fesom_ini a)))" for m1 m2 m3
    using nf f(2) by (simp add: MetisPartitioner_init_def info_fields)
  show "files (snd (main w a ans)) = files w"
    unfolding main_unfold [OF r s]
    by (simp add: init info_fields f split: sum.split)
  show "spawned (snd (main w a ans)) = spawned w"
    unfolding main_unfold [OF r s]
    by (simp add: init info_fields f split: sum.split)
qed

text \<open>
  On the sample installation \<^verbatim>\<open>fesom_ini\<close> is found, for no name and for the empty
  name; with an empty search path the constructor raises, and \<^verbatim>\<open>main\<close> ends with
  no \<^verbatim>\<open>namelist.config\<close> on disk; a name that is not on the path raises with that
  name.
\<close>

theorem MetisPartitioner_init_default_witness:
  "MetisPartitioner_init (example_world 0) None = Inr \<lparr>bin = ''fesom_ini''\<rparr> \<and>
   MetisPartitioner_init (example_world 0) (Some []) = Inr \<lparr>bin = ''fesom_ini''\<rparr> \<and>
   MetisPartitioner_init (example_world 0\<lparr>which := \<lambda>name. None\<rparr>) None =
     Inl (MetisPartitionerError ''fesom_ini'') \<and>
   MetisPartitioner_init (example_world 0) (Some ''/opt/bin/partit'') =
     Inl (MetisPartitionerError ''/opt/bin/partit'') \<and>
   files (snd (main (example_world 0\<lparr>which := \<lambda>name. None\<rparr>) example_args example_answers))
     ''namelist.config'' = None \<and>
   spawned (snd (main (example_world 0\<lparr>which := \<lambda>name. None\<rparr>) example_args example_answers)) = []"
proof -
  let ?w = "example_world 0" and ?v = "example_world 0\<lparr>which := \<lambda>name. None\<rparr>"
  have t: "truthy_path (which ?w ''fesom_ini'')"
    by (simp add: truthy_path_def example_world_def)
  have n: "\<not> truthy_path None" by (simp add: truthy_path_def)
  have d: "bin_or_default (fesom_ini example_args) = ''fesom_ini''"
    by (simp add: bin_or_default_def BIN_def example_args_def)
  have e: "bin_or_default (Some ''/opt/bin/partit'') = ''/opt/bin/partit''"
    by (simp add: bin_or_default_def)
  have x: "\<not> truthy_path (which ?w ''/opt/bin/partit'')"
    by (simp add: truthy_path_def example_world_def)
  have f: "files ?v = Map.empty" "spawned ?v = []" by (simp_all add: example_world_def)
  show ?thesis
    using MetisPartitioner_init_default [of None ?w example_args example_answers]
      MetisPartitioner_init_default [of "Some []" ?w example_args example_answers]
      MetisPartitioner_init_default [of None ?v example_args example_answers]
      MetisPartitioner_init_default [of "Some ''/opt/bin/partit''" ?w example_args example_answers]
    by (simp add: t n d e x f bin_or_default_def BIN_def)
qed

end
